theory Spec2Isabelle
  imports Main "HOL-Library.Word"
begin

section \<open>The pingo plugin server (server.go)\<close>

text \<open>
  A shallow embedding of \<^verbatim>\<open>server.go\<close>: the registry (\<^verbatim>\<open>Register\<close>, \<^verbatim>\<open>register\<close>,
  \<^verbatim>\<open>newRpcServer\<close>), the authenticator (\<^verbatim>\<open>authConn\<close>, \<^verbatim>\<open>serveConn\<close>), the address
  allocators (\<^verbatim>\<open>tcp\<close>, \<^verbatim>\<open>unix\<close>) and the bootstrap (\<^verbatim>\<open>run\<close>).
  Go strings and byte slices are lists of \<open>char\<close> (a \<open>char\<close> is one byte), the
  type \<^verbatim>\<open>int\<close> is a 64-bit two's-complement word, a panic is a value.
\<close>

subsection \<open>Strings and formatting\<close>

type_synonym byte = char

definition zero_byte :: byte where
  "zero_byte = CHR 0x00"

definition printable :: "byte \<Rightarrow> bool" where
  "printable c = (32 \<le> (of_char c :: nat) \<and> (of_char c :: nat) \<le> 126)"

text \<open>\<^verbatim>\<open>strings.Join(elems, sep)\<close>.\<close>

fun Join :: "string list \<Rightarrow> string \<Rightarrow> string" where
  "Join [] sep = []"
| "Join [x] sep = x"
| "Join (x # y # ys) sep = x @ sep @ Join (y # ys) sep"

text \<open>The verb \<^verbatim>\<open>%d\<close> of \<^verbatim>\<open>fmt.Sprintf\<close>: a signed integer in decimal.\<close>

definition digit_char :: "nat \<Rightarrow> char" where
  "digit_char d = ''0123456789'' ! d"

function digits :: "nat \<Rightarrow> string" where
  "digits n = (if n < 10 then [digit_char n] else digits (n div 10) @ [digit_char (n mod 10)])"
  by pat_completeness auto
termination
  by (relation "measure (\<lambda>n. n)") auto

declare digits.simps [simp del]

definition itoa :: "int \<Rightarrow> string" where
  "itoa i = (if i < 0 then CHR ''-'' # digits (nat (- i)) else digits (nat i))"

subsection \<open>Reflection and panics\<close>

text \<open>
  What \<^verbatim>\<open>reflect\<close> knows of a value: the name of its type (empty for an unnamed type)
  and its kind. \<^verbatim>\<open>Elem\<close> is defined for arrays, channels, maps, pointers and slices and
  panics on every other kind.
\<close>

datatype rtype = RType string rkind
  and rkind = Ptr rtype | Slice rtype | Array rtype | Chan rtype | Map rtype rtype | Other

text \<open>
  An argument of type \<^verbatim>\<open>interface{}\<close>: the \<^verbatim>\<open>nil\<close> interface, or a value with its dynamic
  type and whether the value itself is \<^verbatim>\<open>nil\<close> (a nil pointer, slice, map or channel).
  A \<^verbatim>\<open>nil\<close> interface has no type: \<^verbatim>\<open>reflect.TypeOf(nil)\<close> is \<^verbatim>\<open>nil\<close> and calling
  \<^verbatim>\<open>Elem\<close> on it is a nil dereference.
\<close>

datatype obj = NilInterface | Obj rtype bool

datatype panic = Panic string | ElemOfInvalidType rtype | NilDereference | TypeOnZeroValue

fun Name :: "rtype \<Rightarrow> string" where
  "Name (RType n k) = n"

fun Elem :: "rtype \<Rightarrow> panic + rtype" where
  "Elem (RType n (Ptr t)) = Inr t"
| "Elem (RType n (Slice t)) = Inr t"
| "Elem (RType n (Array t)) = Inr t"
| "Elem (RType n (Chan t)) = Inr t"
| "Elem (RType n (Map k t)) = Inr t"
| "Elem (RType n Other) = Inl (ElemOfInvalidType (RType n Other))"

fun dereferenceable :: "obj \<Rightarrow> bool" where
  "dereferenceable NilInterface = False"
| "dereferenceable (Obj (RType n Other) z) = False"
| "dereferenceable (Obj (RType n k) z) = True"

fun nil_pointer :: "obj \<Rightarrow> bool" where
  "nil_pointer (Obj (RType n (Ptr t)) z) = z"
| "nil_pointer ob = False"

text \<open>\<^verbatim>\<open>&PingoRpc{}\<close>: a pointer, not nil, to the struct type \<^verbatim>\<open>PingoRpc\<close>.\<close>

definition PingoRpc :: rtype where
  "PingoRpc = RType ''PingoRpc'' Other"

definition NewPingoRpc :: obj where
  "NewPingoRpc = Obj (RType [] (Ptr PingoRpc)) False"

subsection \<open>Configuration and server state\<close>

record config =
  proto :: string
  addr :: string
  prefix :: string
  unixdir :: string

text \<open>
  \<^verbatim>\<open>makeConfig\<close>: the three flags, each with its default when the command line does not
  give it. The field \<^verbatim>\<open>addr\<close> starts as the empty string.
\<close>

definition makeConfig :: "string option \<Rightarrow> string option \<Rightarrow> string option \<Rightarrow> config" where
  "makeConfig fproto funixdir fprefix =
     \<lparr>proto = (case fproto of None \<Rightarrow> ''unix'' | Some p \<Rightarrow> p),
      addr = [],
      prefix = (case fprefix of None \<Rightarrow> ''pingo'' | Some p \<Rightarrow> p),
      unixdir = (case funixdir of None \<Rightarrow> [] | Some d \<Rightarrow> d)\<rparr>"

text \<open>
  \<^verbatim>\<open>rpcServer\<close>. The embedded \<^verbatim>\<open>*rpc.Server\<close> is the list of the objects its \<^verbatim>\<open>Register\<close>
  was called with and returned for, in order (its error result is dropped by the source).
\<close>

record rpcServer =
  Server :: "obj list"
  secret :: string
  objs :: "string list"
  conf :: config
  running :: bool

text \<open>
  \<^verbatim>\<open>(*rpc.Server).Register\<close> of the library \<^verbatim>\<open>net/rpc\<close>, on the list of objects registered
  so far. It takes the service name from
  \<^verbatim>\<open>reflect.Indirect(reflect.ValueOf(rcvr)).Type().Name()\<close>: for a nil pointer
  \<^verbatim>\<open>Indirect\<close> gives the zero \<^verbatim>\<open>Value\<close>, on which \<^verbatim>\<open>Type\<close> panics. Whatever else it
  objects to (an empty or unexported name, no suitable method, a name already taken) is
  an error result.
\<close>

definition rpc_Register :: "obj \<Rightarrow> obj list \<Rightarrow> panic option \<times> obj list" where
  "rpc_Register rcvr server =
     (if nil_pointer rcvr then (Some TypeOnZeroValue, server) else (None, server @ [rcvr]))"

text \<open>
  \<^verbatim>\<open>register\<close>: the panic, if any, and the server afterwards. Both panics of the type-name
  derivation happen before the first assignment; the panic of the engine's \<^verbatim>\<open>Register\<close>
  happens after the name was appended.
\<close>

definition register :: "obj \<Rightarrow> rpcServer \<Rightarrow> panic option \<times> rpcServer" where
  "register ob r =
     (case ob of
        NilInterface \<Rightarrow> (Some NilDereference, r)
      | Obj t z \<Rightarrow>
          (case Elem t of
             Inl p \<Rightarrow> (Some p, r)
           | Inr element \<Rightarrow>
               (let r1 = r\<lparr>objs := objs r @ [Name element]\<rparr>;
                    (p, s) = rpc_Register ob (Server r1)
                in (p, r1\<lparr>Server := s\<rparr>))))"

definition newRpcServer :: "string \<Rightarrow> config \<Rightarrow> panic option \<times> rpcServer" where
  "newRpcServer s c =
     register NewPingoRpc \<lparr>Server = [], secret = s, objs = [], conf = c, running = False\<rparr>"

text \<open>\<^verbatim>\<open>Register\<close>, on the process-wide \<^verbatim>\<open>defaultServer\<close>.\<close>

definition Register :: "obj \<Rightarrow> rpcServer \<Rightarrow> panic option \<times> rpcServer" where
  "Register ob defaultServer =
     (if running defaultServer then (Some (Panic ''Do not call Register after Run''), defaultServer)
      else register ob defaultServer)"

text \<open>A sequence of \<^verbatim>\<open>Register\<close> calls; the first panic ends the process.\<close>

fun Registers :: "obj list \<Rightarrow> rpcServer \<Rightarrow> panic option \<times> rpcServer" where
  "Registers [] r = (None, r)"
| "Registers (ob # obs) r =
     (case Register ob r of
        (Some p, r') \<Rightarrow> (Some p, r')
      | (None, r') \<Rightarrow> Registers obs r')"

subsection \<open>Connections and authentication\<close>

text \<open>
  A connection: the chunks its successive \<^verbatim>\<open>Read\<close> calls will deliver (after the last one
  \<^verbatim>\<open>Read\<close> fails with \<^verbatim>\<open>EOF\<close> or another error), the bytes written back to the peer, and
  whether it is closed.
\<close>

record conn =
  pending :: "byte list list"
  written :: "byte list"
  closed :: bool

text \<open>
  \<^verbatim>\<open>io.ReadFull\<close> for a buffer of \<open>n\<close> bytes: it calls \<^verbatim>\<open>Read\<close> on the rest of the buffer
  until the buffer is full or \<^verbatim>\<open>Read\<close> fails. The result is the bytes stored and the
  reader afterwards.
\<close>

fun ReadFull :: "nat \<Rightarrow> byte list list \<Rightarrow> byte list \<times> byte list list" where
  "ReadFull 0 rd = ([], rd)"
| "ReadFull (Suc n) [] = ([], [])"
| "ReadFull (Suc n) (c # rd) =
     (if length c \<le> Suc n
      then (let (bs, rd') = ReadFull (Suc n - length c) rd in (c @ bs, rd'))
      else (take (Suc n) c, drop (Suc n) c # rd))"

text \<open>
  \<^verbatim>\<open>authConn\<close>: the buffer is 64 zero bytes, \<^verbatim>\<open>ReadFull\<close> overwrites its front (its error
  is dropped), and the whole buffer is compared with the secret.
\<close>

definition authConn :: "rpcServer \<Rightarrow> conn \<Rightarrow> bool \<times> conn" where
  "authConn r c =
     (let (bs, rd) = ReadFull 64 (pending c);
          buf = bs @ replicate (64 - length bs) zero_byte
      in (buf = secret r, c\<lparr>pending := rd\<rparr>))"

text \<open>
  \<^verbatim>\<open>serveConn\<close>, with the call-dispatch engine's \<^verbatim>\<open>ServeConn\<close> as a parameter: the
  connection afterwards and the connections handed to the engine.
\<close>

definition serveConn :: "(conn \<Rightarrow> conn) \<Rightarrow> rpcServer \<Rightarrow> conn \<Rightarrow> conn \<times> conn list" where
  "serveConn ServeConn r c =
     (let (ok, c1) = authConn r c;
          (c2, handed) = (if ok then (ServeConn c1, [c1]) else (c1, []))
      in (c2\<lparr>closed := True\<rparr>, handed))"

text \<open>The bytes a peer sends in all, whatever the chunking.\<close>

definition sent :: "conn \<Rightarrow> byte list" where
  "sent c = concat (pending c)"

definition handlers :: "(conn \<Rightarrow> conn) \<Rightarrow> rpcServer \<Rightarrow> conn list \<Rightarrow> (conn \<times> conn list) list" where
  "handlers ServeConn r cs = map (serveConn ServeConn r) cs"

subsection \<open>The environment of the bootstrap\<close>

text \<open>
  What \<^verbatim>\<open>run\<close> calls and this file does not define. \<open>randstr e k n\<close> is the result of the
  \<open>k\<close>-th call of \<^verbatim>\<open>randstr\<close> during \<^verbatim>\<open>run\<close>, with argument \<open>n\<close>; \<open>Listen e i p a\<close> is
  the error of the \<open>i\<close>-th call of \<^verbatim>\<open>net.Listen\<close>, with network \<open>p\<close> and address \<open>a\<close>
  (\<open>None\<close>: the socket is bound); \<open>path_Join\<close> and \<open>FromSlash\<close> are the library's
  \<^verbatim>\<open>path.Join\<close> and \<^verbatim>\<open>filepath.FromSlash\<close>; \<open>errorCodeConnFailed\<close> is the constant of
  that name.
\<close>

record env =
  randstr :: "nat \<Rightarrow> nat \<Rightarrow> string"
  Listen :: "nat \<Rightarrow> string \<Rightarrow> string \<Rightarrow> string option"
  path_Join :: "string list \<Rightarrow> string"
  FromSlash :: "string \<Rightarrow> string"
  errorCodeConnFailed :: string

text \<open>
  The handshake channel and the network, as a trace: \<open>Output h key value\<close> is
  \<^verbatim>\<open>h.output(key, value)\<close> on the channel made by \<^verbatim>\<open>meta(h)\<close>, \<open>ListenCall p a\<close> is a
  call \<^verbatim>\<open>net.Listen(p, a)\<close>.
\<close>

datatype event = Output string string string | ListenCall string string

subsection \<open>Address allocators\<close>

datatype connection = tcp "64 word" | unix string

text \<open>\<^verbatim>\<open>(*tcp).addr\<close>: the address and the cursor afterwards.\<close>

definition tcp_addr :: "64 word \<Rightarrow> string \<times> 64 word" where
  "tcp_addr t =
     (let t1 = (if sint t < 1024 then 1023 else t);
          t2 = t1 + 1
      in (''127.0.0.1:'' @ itoa (sint t2), t2))"

definition tcp_retries :: nat where
  "tcp_retries = 500"

text \<open>\<^verbatim>\<open>(*unix).addr\<close>, as the \<open>k\<close>-th user of \<^verbatim>\<open>randstr\<close>.\<close>

definition unix_addr :: "env \<Rightarrow> nat \<Rightarrow> string \<Rightarrow> string" where
  "unix_addr e k u =
     (let name = randstr e k 8
      in if u \<noteq> [] then FromSlash e (path_Join e [u, name]) else name)"

definition unix_retries :: nat where
  "unix_retries = 4"

text \<open>
  The interface \<^verbatim>\<open>connection\<close>: \<^verbatim>\<open>addr\<close> gives the address, the allocator afterwards
  and the number of \<^verbatim>\<open>randstr\<close> calls so far.
\<close>

fun conn_addr :: "env \<Rightarrow> nat \<Rightarrow> connection \<Rightarrow> string \<times> connection \<times> nat" where
  "conn_addr e k (tcp t) = (let (a, t') = tcp_addr t in (a, tcp t', k))"
| "conn_addr e k (unix u) = (unix_addr e k u, unix u, Suc k)"

fun conn_retries :: "connection \<Rightarrow> nat" where
  "conn_retries (tcp t) = tcp_retries"
| "conn_retries (unix u) = unix_retries"

text \<open>The cursor after \<open>n\<close> calls of \<^verbatim>\<open>(*tcp).addr\<close>.\<close>

fun tcp_after :: "nat \<Rightarrow> 64 word \<Rightarrow> 64 word" where
  "tcp_after 0 t = t"
| "tcp_after (Suc n) t = snd (tcp_addr (tcp_after n t))"

subsection \<open>The bootstrap\<close>

text \<open>
  The variables of \<^verbatim>\<open>run\<close>: the server, the allocator \<^verbatim>\<open>conn\<close>, \<^verbatim>\<open>err\<close>, the number of
  \<^verbatim>\<open>randstr\<close> calls made, and the trace.
\<close>

record frame =
  srv :: rpcServer
  cn :: connection
  err :: "string option"
  drawn :: nat
  trace :: "event list"

text \<open>The bind loop of \<^verbatim>\<open>run\<close>, from the loop index \<open>i\<close>.\<close>

function bind_loop :: "env \<Rightarrow> nat \<Rightarrow> frame \<Rightarrow> frame" where
  "bind_loop e i f =
     (if i < conn_retries (cn f)
      then (let (a, c', k') = conn_addr e (drawn f) (cn f);
                r' = (srv f)\<lparr>conf := (conf (srv f))\<lparr>addr := a\<rparr>\<rparr>;
                er = Listen e i (proto (conf r')) a;
                f' = \<lparr>srv = r', cn = c', err = er, drawn = k',
                      trace = trace f @ [ListenCall (proto (conf r')) a]\<rparr>
            in if er = None then f' else bind_loop e (Suc i) f')
      else f)"
  by pat_completeness auto
termination
proof (relation "measure (\<lambda>(e, i, f). conn_retries (cn f) - i)", goal_cases)
  case 1
  show ?case by simp
next
  case (2 e i f x a y c' k' r' er f')
  then have "conn_retries c' = conn_retries (cn f)"
    by (cases "cn f") (auto split: prod.splits)
  with 2 show ?case by simp
qed

declare bind_loop.simps [simp del]

text \<open>
  The state of \<^verbatim>\<open>run\<close> from the bind loop on: \<open>returned = Some er\<close> when \<^verbatim>\<open>run\<close> has
  returned the error \<open>er\<close>, \<open>None\<close> while it is in the accept loop, which it never leaves;
  \<open>spawned\<close> lists the connections given to \<^verbatim>\<open>go r.serveConn(conn)\<close>.
\<close>

record run_state =
  server :: rpcServer
  out :: "event list"
  returned :: "string option"
  spawned :: "conn list"

text \<open>
  The accept loop over the first results of \<^verbatim>\<open>listener.Accept()\<close>: an error message or a
  connection.
\<close>

fun accept_loop :: "string \<Rightarrow> (string + conn) list \<Rightarrow> run_state \<Rightarrow> run_state" where
  "accept_loop h [] s = s"
| "accept_loop h (Inl msg # acs) s =
     accept_loop h acs (s\<lparr>out := out s @ [Output h ''fatal'' (''err-http-serve: '' @ msg)]\<rparr>)"
| "accept_loop h (Inr c # acs) s =
     accept_loop h acs (s\<lparr>spawned := spawned s @ [c]\<rparr>)"

text \<open>
  \<^verbatim>\<open>(*rpcServer).run\<close>; \<open>dsecret\<close> is \<^verbatim>\<open>defaultServer.secret\<close> and \<open>acs\<close> the first results
  of \<^verbatim>\<open>Accept\<close>.
\<close>

definition run :: "env \<Rightarrow> (string + conn) list \<Rightarrow> string \<Rightarrow> rpcServer \<Rightarrow> run_state" where
  "run e acs dsecret r =
     (let r1 = r\<lparr>running := True\<rparr>;
          h = prefix (conf r1);
          t0 = [Output h ''objects'' (Join (objs r1) '', '')];
          (r2, c) = (if proto (conf r1) = ''tcp'' then (r1, tcp 0)
                     else (r1\<lparr>conf := (conf r1)\<lparr>proto := ''unix''\<rparr>\<rparr>, unix []));
          f = bind_loop e 0 \<lparr>srv = r2, cn = c, err = None, drawn = 0, trace = t0\<rparr>
      in case err f of
           Some er \<Rightarrow>
             \<lparr>server = srv f,
              out = trace f @
                [Output h ''fatal''
                   (errorCodeConnFailed e @ '': Could not connect in '' @
                    itoa (int (conn_retries (cn f))) @ '' attemps, using '' @
                    proto (conf (srv f)) @ '' protocol'')],
              returned = Some er,
              spawned = []\<rparr>
         | None \<Rightarrow>
             accept_loop h acs
               \<lparr>server = srv f,
                out = trace f @
                  [Output h ''auth-token'' dsecret,
                   Output h ''ready''
                     (''proto='' @ proto (conf (srv f)) @ '' addr='' @ addr (conf (srv f)))],
                returned = None,
                spawned = []\<rparr>)"

text \<open>\<^verbatim>\<open>Run\<close>: \<^verbatim>\<open>run\<close> on the process-wide \<^verbatim>\<open>defaultServer\<close>.\<close>

definition Run :: "env \<Rightarrow> (string + conn) list \<Rightarrow> rpcServer \<Rightarrow> run_state" where
  "Run e acs defaultServer = run e acs (secret defaultServer) defaultServer"

subsection \<open>Notions used to state the properties\<close>

text \<open>
  The result of the \<open>(j+1)\<close>-th call of \<^verbatim>\<open>addr\<close> on an allocator, and the address it
  returns: the \<open>j\<close>-th candidate (counted from 0).
\<close>

fun nth_alloc :: "env \<Rightarrow> nat \<Rightarrow> connection \<Rightarrow> nat \<Rightarrow> string \<times> connection \<times> nat" where
  "nth_alloc e 0 c k = conn_addr e k c"
| "nth_alloc e (Suc j) c k = (let (a, c', k') = conn_addr e k c in nth_alloc e j c' k')"

definition candidate :: "env \<Rightarrow> connection \<Rightarrow> nat \<Rightarrow> nat \<Rightarrow> string" where
  "candidate e c k j = fst (nth_alloc e j c k)"

text \<open>The arguments \<^verbatim>\<open>register\<close> goes through with: of a kind \<^verbatim>\<open>Elem\<close> accepts, and not a
  nil pointer.\<close>

definition registrable :: "obj \<Rightarrow> bool" where
  "registrable ob = (dereferenceable ob \<and> \<not> nil_pointer ob)"

text \<open>What the \<^verbatim>\<open>switch\<close> of \<^verbatim>\<open>run\<close> selects: the network name and the fresh allocator.\<close>

definition scheme :: "rpcServer \<Rightarrow> string" where
  "scheme r = (if proto (conf r) = ''tcp'' then ''tcp'' else ''unix'')"

definition allocator :: "rpcServer \<Rightarrow> connection" where
  "allocator r = (if proto (conf r) = ''tcp'' then tcp 0 else unix [])"

text \<open>The value of the fatal line of \<^verbatim>\<open>run\<close>, for \<open>n\<close> retries and network \<open>p\<close>.\<close>

definition fatal_line :: "env \<Rightarrow> nat \<Rightarrow> string \<Rightarrow> string" where
  "fatal_line e n p =
     errorCodeConnFailed e @ '': Could not connect in '' @ itoa (int n) @
     '' attemps, using '' @ p @ '' protocol''"

text \<open>What the accept loop writes and which connections it hands to a handler.\<close>

fun accept_events :: "string \<Rightarrow> (string + conn) list \<Rightarrow> event list" where
  "accept_events h [] = []"
| "accept_events h (Inl msg # acs) =
     Output h ''fatal'' (''err-http-serve: '' @ msg) # accept_events h acs"
| "accept_events h (Inr c # acs) = accept_events h acs"

fun accepted :: "(string + conn) list \<Rightarrow> conn list" where
  "accepted [] = []"
| "accepted (Inl msg # acs) = accepted acs"
| "accepted (Inr c # acs) = c # accepted acs"

fun has_key :: "string \<Rightarrow> event \<Rightarrow> bool" where
  "has_key k (Output h k' v) = (k' = k)"
| "has_key k (ListenCall p a) = False"

fun is_ListenCall :: "event \<Rightarrow> bool" where
  "is_ListenCall (ListenCall p a) = True"
| "is_ListenCall (Output h k v) = False"

text \<open>
  For the bootstrap of a server \<open>r\<close> in an environment \<open>e\<close>: the number of candidates the
  bind loop may try, the \<open>j\<close>-th candidate address of its fresh allocator, and whether the
  \<open>j\<close>-th call of \<^verbatim>\<open>net.Listen\<close>, made with that candidate, binds.
\<close>

definition retry_limit :: "rpcServer \<Rightarrow> nat" where
  "retry_limit r = conn_retries (allocator r)"

definition cand :: "env \<Rightarrow> rpcServer \<Rightarrow> nat \<Rightarrow> string" where
  "cand e r j = candidate e (allocator r) 0 j"

definition bind_ok :: "env \<Rightarrow> rpcServer \<Rightarrow> nat \<Rightarrow> bool" where
  "bind_ok e r j = (Listen e j (scheme r) (cand e r j) = None)"

definition listen_calls :: "event list \<Rightarrow> event list" where
  "listen_calls t = filter is_ListenCall t"

text \<open>
  The bind loop makes its last attempt with candidate \<open>m\<close>: the attempts before it fail,
  and it binds or is the last one allowed.
\<close>

definition stops_at :: "env \<Rightarrow> rpcServer \<Rightarrow> nat \<Rightarrow> bool" where
  "stops_at e r m =
     (m < retry_limit r \<and> list_all (\<lambda>j. \<not> bind_ok e r j) [0..<m]
      \<and> (bind_ok e r m \<or> Suc m = retry_limit r))"

subsection \<open>Example inputs\<close>

definition example_secret :: string where
  "example_secret = ''0123456789abcdefghijklmnopqrstuvwxyzABCDEFGHIJKLMNOPQRSTUVWXYZ+/''"

text \<open>The server of a process started without flags, and of one started with
  \<^verbatim>\<open>-pingo:unixdir=/tmp/plug\<close>.\<close>

definition example_server :: rpcServer where
  "example_server = snd (newRpcServer example_secret (makeConfig None None None))"

definition unixdir_server :: rpcServer where
  "unixdir_server = snd (newRpcServer example_secret (makeConfig None (Some ''/tmp/plug'') None))"

text \<open>A peer that sends the secret in two pieces, followed by a call, and one that sends
  a wrong last byte.\<close>

definition good_peer :: conn where
  "good_peer =
     \<lparr>pending = [take 10 example_secret, drop 10 example_secret @ ''call''],
      written = [], closed = False\<rparr>"

definition bad_peer :: conn where
  "bad_peer =
     \<lparr>pending = [take 63 example_secret, ''-more''], written = [], closed = False\<rparr>"

text \<open>
  An environment where every name drawn is \<^verbatim>\<open>abcdefgh\<close> and paths are joined with a
  slash; binding succeeds at once in \<open>free_env\<close> and never in \<open>taken_env\<close>.
\<close>

definition free_env :: env where
  "free_env =
     \<lparr>randstr = (\<lambda>k n. ''abcdefgh''), Listen = (\<lambda>i p a. None),
      path_Join = (\<lambda>xs. Join xs ''/''), FromSlash = (\<lambda>x. x),
      errorCodeConnFailed = ''err-connection-failed''\<rparr>"

definition taken_env :: env where
  "taken_env =
     \<lparr>randstr = (\<lambda>k n. ''abcdefgh''), Listen = (\<lambda>i p a. Some ''address already in use''),
      path_Join = (\<lambda>xs. Join xs ''/''), FromSlash = (\<lambda>x. x),
      errorCodeConnFailed = ''err-connection-failed''\<rparr>"

text \<open>
  An environment where the first three binds collide and the fourth succeeds, the names
  drawn being \<^verbatim>\<open>aaaaaaaa\<close>, \<^verbatim>\<open>bbbbbbbb\<close>, \<^verbatim>\<open>cccccccc\<close> and then \<^verbatim>\<open>dddddddd\<close>.
\<close>

definition collide_env :: env where
  "collide_env =
     \<lparr>randstr = (\<lambda>k n. if k = 0 then ''aaaaaaaa'' else if k = 1 then ''bbbbbbbb''
                         else if k = 2 then ''cccccccc'' else ''dddddddd''),
      Listen = (\<lambda>i p a. if i < 3 then Some ''address already in use'' else None),
      path_Join = (\<lambda>xs. Join xs ''/''), FromSlash = (\<lambda>x. x),
      errorCodeConnFailed = ''err-connection-failed''\<rparr>"

text \<open>The server of a process started with \<^verbatim>\<open>-pingo:proto=tcp\<close>.\<close>

definition tcp_server :: rpcServer where
  "tcp_server = snd (newRpcServer example_secret (makeConfig (Some ''tcp'') None None))"

section \<open>Auxiliary lemmas\<close>

lemma printable_not_zero: "printable c \<Longrightarrow> c \<noteq> zero_byte"
  by (auto simp: printable_def zero_byte_def)

lemma ReadFull_take: "fst (ReadFull n rd) = take n (concat rd)"
  by (induction n rd rule: ReadFull.induct) (auto split: prod.splits)

lemma authConn_buf:
  "fst (authConn r c) =
     (take 64 (sent c) @ replicate (64 - length (take 64 (sent c))) zero_byte = secret r)"
  using ReadFull_take [of 64 "pending c"]
  by (auto simp: authConn_def sent_def split: prod.splits)



lemma tcp_addr_form: "fst (tcp_addr t) = ''127.0.0.1:'' @ itoa (sint (snd (tcp_addr t)))"
  by (simp add: tcp_addr_def Let_def)

lemma sint_succ_64:
  fixes t :: "64 word"
  assumes "sint t \<noteq> 2 ^ 63 - 1"
  shows "sint (t + 1) = sint t + 1"
proof -
  have "sint t < 2 ^ 63" using sint_lt [of t] by simp
  with assms have up: "sint t + 1 < 2 ^ 63" by simp
  have "- (2 ^ 63) \<le> sint t" using sint_ge [of t] by simp
  then have lo: "- (2 ^ 63) \<le> sint t + 1" by simp
  have "sint (t + 1) = signed_take_bit 63 (sint t + 1)"
    by (simp add: sint_word_add)
  also have "\<dots> = sint t + 1"
    using lo up by (rule signed_take_bit_int_eq_self)
  finally show ?thesis .
qed

lemma tcp_addr_step:
  "sint t \<noteq> 2 ^ 63 - 1 \<Longrightarrow>
   sint (snd (tcp_addr t)) = (if sint t < 1024 then 1024 else sint t + 1)"
  by (simp add: tcp_addr_def Let_def sint_succ_64)

lemma tcp_after_port:
  "0 < n \<Longrightarrow> n \<le> 2 ^ 63 - 1024 \<Longrightarrow> sint (tcp_after n 0) = 1023 + int n"
proof (induction n)
  case 0
  then show ?case by simp
next
  case (Suc n)
  show ?case
  proof (cases "n = 0")
    case True
    then show ?thesis by (simp add: tcp_addr_def Let_def)
  next
    case False
    with Suc have ih: "sint (tcp_after n 0) = 1023 + int n" by simp
    from Suc.prems have "int n < 2 ^ 63 - 1024" by simp
    with ih have ne: "sint (tcp_after n 0) \<noteq> 2 ^ 63 - 1" by simp
    from False ih have ge: "\<not> sint (tcp_after n 0) < 1024" by simp
    show ?thesis using tcp_addr_step [OF ne] ge ih by simp
  qed
qed


lemma conn_addr_retries: "conn_addr e k c = (a, c', k') \<Longrightarrow> conn_retries c' = conn_retries c"
  by (cases c) (auto split: prod.splits)

lemma candidate_0: "conn_addr e k c = (a, c', k') \<Longrightarrow> candidate e c k 0 = a"
  by (simp add: candidate_def)

lemma candidate_Suc: "conn_addr e k c = (a, c', k') \<Longrightarrow> candidate e c k (Suc j) = candidate e c' k' j"
  by (simp add: candidate_def)

lemma nth_alloc_Suc: "conn_addr e k c = (a, c', k') \<Longrightarrow> nth_alloc e (Suc j) c k = nth_alloc e j c' k'"
  by simp

lemma map_upt_Suc_shift: "map g [0..<Suc n] = g 0 # map (\<lambda>j. g (Suc j)) [0..<n]"
  by (simp only: map_upt_Suc)

lemma bind_loop_stops:
  assumes "i + m < conn_retries (cn f)"
    and "\<forall>j<m. Listen e (i + j) (proto (conf (srv f))) (candidate e (cn f) (drawn f) j) \<noteq> None"
    and "Listen e (i + m) (proto (conf (srv f))) (candidate e (cn f) (drawn f) m) = None
         \<or> Suc (i + m) = conn_retries (cn f)"
  shows "bind_loop e i f =
     \<lparr>srv = (srv f)\<lparr>conf := (conf (srv f))\<lparr>addr := candidate e (cn f) (drawn f) m\<rparr>\<rparr>,
      cn = fst (snd (nth_alloc e m (cn f) (drawn f))),
      err = Listen e (i + m) (proto (conf (srv f))) (candidate e (cn f) (drawn f) m),
      drawn = snd (snd (nth_alloc e m (cn f) (drawn f))),
      trace = trace f @
        map (\<lambda>j. ListenCall (proto (conf (srv f))) (candidate e (cn f) (drawn f) j)) [0..<Suc m]\<rparr>"
  using assms
proof (induction m arbitrary: i f)
  case 0
  obtain a c' k' where ca: "conn_addr e (drawn f) (cn f) = (a, c', k')"
    by (cases "conn_addr e (drawn f) (cn f)") auto
  have r: "conn_retries c' = conn_retries (cn f)" using ca by (rule conn_addr_retries)
  have c0: "candidate e (cn f) (drawn f) 0 = a" using ca by (rule candidate_0)
  from 0 have lt: "i < conn_retries (cn f)" by simp
  show ?case
  proof (cases "Listen e i (proto (conf (srv f))) a = None")
    case True
    then show ?thesis
      using lt ca c0 by (subst bind_loop.simps) (simp add: Let_def)
  next
    case False
    with 0 c0 have last: "Suc i = conn_retries (cn f)" by simp
    from False obtain y where y: "Listen e i (proto (conf (srv f))) a = Some y" by blast
    have stop: "bind_loop e (Suc i) g = g" if "conn_retries (cn g) = conn_retries (cn f)" for g
      using that last by (subst bind_loop.simps) simp
    show ?thesis
      using lt ca c0 y r
      by (subst bind_loop.simps) (simp add: Let_def stop)
  qed
next
  case (Suc m)
  obtain a c' k' where ca: "conn_addr e (drawn f) (cn f) = (a, c', k')"
    by (cases "conn_addr e (drawn f) (cn f)") auto
  have r: "conn_retries c' = conn_retries (cn f)" using ca by (rule conn_addr_retries)
  have c0: "candidate e (cn f) (drawn f) 0 = a" using ca by (rule candidate_0)
  have cS: "\<And>j. candidate e (cn f) (drawn f) (Suc j) = candidate e c' k' j"
    using ca by (rule candidate_Suc)
  have nS: "nth_alloc e (Suc m) (cn f) (drawn f) = nth_alloc e m c' k'"
    using ca by (rule nth_alloc_Suc)
  let ?p = "proto (conf (srv f))"
  let ?f' = "\<lparr>srv = (srv f)\<lparr>conf := (conf (srv f))\<lparr>addr := a\<rparr>\<rparr>, cn = c',
             err = Listen e i ?p a, drawn = k', trace = trace f @ [ListenCall ?p a]\<rparr>"
  from Suc.prems have lt: "i < conn_retries (cn f)" by simp
  from Suc.prems(2) c0 have "Listen e i ?p a \<noteq> None" by force
  then obtain y where fail0: "Listen e i ?p a = Some y" by blast
  have step: "bind_loop e i f = bind_loop e (Suc i) ?f'"
    using lt ca fail0 by (subst bind_loop.simps) (simp add: Let_def)
  have p1: "Suc i + m < conn_retries (cn ?f')" using Suc.prems(1) r by simp
  have p2: "\<forall>j<m. Listen e (Suc i + j) (proto (conf (srv ?f'))) (candidate e (cn ?f') (drawn ?f') j) \<noteq> None"
  proof (intro allI impI)
    fix j assume "j < m"
    then have "Suc j < Suc m" by simp
    with Suc.prems(2) have "Listen e (i + Suc j) ?p (candidate e (cn f) (drawn f) (Suc j)) \<noteq> None"
      by blast
    then show "Listen e (Suc i + j) (proto (conf (srv ?f'))) (candidate e (cn ?f') (drawn ?f') j) \<noteq> None"
      by (simp add: cS)
  qed
  have p3: "Listen e (Suc i + m) (proto (conf (srv ?f'))) (candidate e (cn ?f') (drawn ?f') m) = None
         \<or> Suc (Suc i + m) = conn_retries (cn ?f')"
    using Suc.prems(3) r by (simp add: cS)
  have tr: "[ListenCall ?p a] @ map (\<lambda>j. ListenCall ?p (candidate e c' k' j)) [0..<Suc m]
          = map (\<lambda>j. ListenCall ?p (candidate e (cn f) (drawn f) j)) [0..<Suc (Suc m)]"
    by (subst (2) map_upt_Suc_shift) (simp add: c0 cS)
  show ?case
    unfolding step
    by (subst Suc.IH [OF p1 p2 p3]) (simp add: cS ca tr [symmetric] del: upt_Suc)
qed

lemma accept_loop_eq:
  "accept_loop h acs s = s\<lparr>out := out s @ accept_events h acs, spawned := spawned s @ accepted acs\<rparr>"
  by (induction h acs s rule: accept_loop.induct) simp_all

lemma stop_index_exists:
  assumes "0 < (n::nat)"
  shows "\<exists>m<n. (\<forall>j<m. \<not> P j) \<and> (P m \<or> Suc m = n)"
proof -
  define Q where "Q j = (P j \<or> Suc j = n)" for j
  have q: "Q (n - 1)" using assms by (simp add: Q_def)
  define m where "m = (LEAST j. Q j)"
  have qm: "Q m" unfolding m_def using q by (rule LeastI)
  have le: "m \<le> n - 1" unfolding m_def using q by (rule Least_le)
  have "\<not> Q j" if "j < m" for j using that not_less_Least unfolding m_def by blast
  then have "\<forall>j<m. \<not> P j" by (simp add: Q_def)
  moreover have "m < n" using le assms by simp
  ultimately show ?thesis using qm unfolding Q_def by blast
qed

lemma conn_retries_pos: "0 < conn_retries c"
  by (cases c) (simp_all add: tcp_retries_def unix_retries_def)

lemma conn_retries_nth_alloc: "conn_retries (fst (snd (nth_alloc e m c k))) = conn_retries c"
proof (induction m arbitrary: c k)
  case 0
  show ?case by (cases "conn_addr e k c") (simp, metis conn_addr_retries)
next
  case (Suc m)
  obtain a c' k' where ca: "conn_addr e k c = (a, c', k')" by (cases "conn_addr e k c") auto
  then show ?case using Suc [of c' k'] conn_addr_retries [OF ca] by simp
qed

lemma run_stops:
  fixes e acs ds r
  defines "p \<equiv> scheme r" and "c \<equiv> allocator r" and "h \<equiv> prefix (conf r)"
  assumes m: "m < conn_retries c"
      "\<forall>j<m. Listen e j p (candidate e c 0 j) \<noteq> None"
      "Listen e m p (candidate e c 0 m) = None \<or> Suc m = conn_retries c"
  shows "returned (run e acs ds r) = Listen e m p (candidate e c 0 m) \<and>
     server (run e acs ds r) =
       r\<lparr>running := True, conf := (conf r)\<lparr>proto := p, addr := candidate e c 0 m\<rparr>\<rparr> \<and>
     out (run e acs ds r) =
       Output h ''objects'' (Join (objs r) '', '') #
       map (\<lambda>j. ListenCall p (candidate e c 0 j)) [0..<Suc m] @
       (case Listen e m p (candidate e c 0 m) of
          Some er \<Rightarrow> [Output h ''fatal'' (fatal_line e (conn_retries c) p)]
        | None \<Rightarrow>
            [Output h ''auth-token'' ds,
             Output h ''ready'' (''proto='' @ p @ '' addr='' @ candidate e c 0 m)] @
            accept_events h acs) \<and>
     spawned (run e acs ds r) =
       (case Listen e m p (candidate e c 0 m) of Some er \<Rightarrow> [] | None \<Rightarrow> accepted acs)"
proof -
  define r2 where "r2 = (if proto (conf r) = ''tcp'' then r\<lparr>running := True\<rparr>
        else r\<lparr>running := True, conf := (conf r)\<lparr>proto := ''unix''\<rparr>\<rparr>)"
  define f0 where "f0 = \<lparr>srv = r2, cn = c, err = None, drawn = 0,
        trace = [Output h ''objects'' (Join (objs r) '', '')]\<rparr>"
  have pr2: "proto (conf r2) = p" by (simp add: r2_def p_def scheme_def)
  have a1: "0 + m < conn_retries (cn f0)" using m(1) by (simp add: f0_def)
  have a2: "\<forall>j<m. Listen e (0 + j) (proto (conf (srv f0))) (candidate e (cn f0) (drawn f0) j) \<noteq> None"
    using m(2) by (simp add: f0_def pr2)
  have a3: "Listen e (0 + m) (proto (conf (srv f0))) (candidate e (cn f0) (drawn f0) m) = None
         \<or> Suc (0 + m) = conn_retries (cn f0)"
    using m(3) by (simp add: f0_def pr2)
  note bl = bind_loop_stops [OF a1 a2 a3]
  have r2c: "r2\<lparr>conf := (conf r2)\<lparr>addr := x\<rparr>\<rparr> = r\<lparr>running := True, conf := (conf r)\<lparr>proto := p, addr := x\<rparr>\<rparr>" for x
    by (cases "proto (conf r) = ''tcp''") (simp_all add: r2_def p_def scheme_def)
  have runeq: "run e acs ds r =
     (let f = bind_loop e 0 f0 in
      case err f of
           Some er \<Rightarrow>
             \<lparr>server = srv f,
              out = trace f @
                [Output h ''fatal'' (fatal_line e (conn_retries (cn f)) (proto (conf (srv f))))],
              returned = Some er,
              spawned = []\<rparr>
         | None \<Rightarrow>
             accept_loop h acs
               \<lparr>server = srv f,
                out = trace f @
                  [Output h ''auth-token'' ds,
                   Output h ''ready''
                     (''proto='' @ proto (conf (srv f)) @ '' addr='' @ addr (conf (srv f)))],
                returned = None,
                spawned = []\<rparr>)"
    by (simp add: run_def f0_def r2_def h_def c_def allocator_def fatal_line_def Let_def
        cong: option.case_cong)
  have cr: "conn_retries (fst (snd (nth_alloc e m c 0))) = conn_retries c"
    by (rule conn_retries_nth_alloc)
  show ?thesis
    unfolding runeq bl
    by (cases "Listen e m p (candidate e c 0 m)")
       (simp_all add: f0_def pr2 r2c cr accept_loop_eq Let_def p_def [symmetric] del: upt_Suc)
qed

lemma run_stop_exists:
  "\<exists>m < conn_retries (allocator r).
     (\<forall>j<m. Listen e j (scheme r) (candidate e (allocator r) 0 j) \<noteq> None) \<and>
     (Listen e m (scheme r) (candidate e (allocator r) 0 m) = None
      \<or> Suc m = conn_retries (allocator r))"
  using stop_index_exists [OF conn_retries_pos,
      of "allocator r" "\<lambda>j. Listen e j (scheme r) (candidate e (allocator r) 0 j) = None"]
  by blast

lemma tcp_after_shift: "tcp_after n (snd (tcp_addr t)) = snd (tcp_addr (tcp_after n t))"
  by (induction n) simp_all

lemma nth_alloc_tcp:
  "nth_alloc e j (tcp t) k = (fst (tcp_addr (tcp_after j t)), tcp (tcp_after (Suc j) t), k)"
proof (induction j arbitrary: t)
  case 0
  show ?case by (simp split: prod.splits)
next
  case (Suc j)
  have "nth_alloc e (Suc j) (tcp t) k = nth_alloc e j (tcp (snd (tcp_addr t))) k"
    by (simp split: prod.splits)
  also have "\<dots> = (fst (tcp_addr (tcp_after (Suc j) t)), tcp (tcp_after (Suc (Suc j)) t), k)"
    by (simp add: Suc tcp_after_shift)
  finally show ?case .
qed

lemma nth_alloc_unix:
  "nth_alloc e j (unix u) k = (unix_addr e (k + j) u, unix u, Suc (k + j))"
  by (induction j arbitrary: k) simp_all

lemma candidate_unix: "candidate e (unix []) 0 j = randstr e j 8"
  by (simp add: candidate_def nth_alloc_unix unix_addr_def)

lemma candidate_tcp:
  assumes "j < 2 ^ 63 - 1024"
  shows "candidate e (tcp 0) k j = ''127.0.0.1:'' @ itoa (1024 + int j)"
proof -
  have "sint (tcp_after (Suc j) 0) = 1023 + int (Suc j)"
    using assms by (intro tcp_after_port) simp_all
  then show ?thesis
    by (simp add: candidate_def nth_alloc_tcp tcp_addr_form)
qed

lemma Join_Cons: "\<exists>v. Join (x # xs) sep = x @ v"
  by (cases xs) simp_all

lemma register_appends:
  "\<exists>ns ps. objs (snd (register ob r)) = objs r @ ns \<and> Server (snd (register ob r)) = Server r @ ps
      \<and> running (snd (register ob r)) = running r \<and> conf (snd (register ob r)) = conf r
      \<and> secret (snd (register ob r)) = secret r"
  by (auto simp: register_def rpc_Register_def Let_def split: obj.splits sum.splits)

lemma Register_appends:
  "\<exists>ns. objs (snd (Register ob r)) = objs r @ ns"
  using register_appends [of ob r] by (auto simp: Register_def)

lemma Register_keeps:
  "running (snd (Register ob r)) = running r \<and> conf (snd (Register ob r)) = conf r
     \<and> secret (snd (Register ob r)) = secret r"
  using register_appends [of ob r] by (auto simp: Register_def)

lemma Registers_appends:
  "\<exists>ns. objs (snd (Registers obs r)) = objs r @ ns"
proof (induction obs arbitrary: r)
  case Nil
  show ?case by simp
next
  case (Cons ob obs)
  obtain ns where ns: "objs (snd (Register ob r)) = objs r @ ns"
    using Register_appends by blast
  show ?case
  proof (cases "Register ob r")
    case (Pair po r')
    with ns have r': "objs r' = objs r @ ns" by simp
    show ?thesis
    proof (cases po)
      case None
      from Cons [of r'] obtain ms where "objs (snd (Registers obs r')) = objs r' @ ms" by blast
      with Pair None r' show ?thesis by simp
    next
      case (Some p)
      with Pair r' show ?thesis by simp
    qed
  qed
qed

lemma Registers_keeps:
  "prefix (conf (snd (Registers obs r))) = prefix (conf r)"
proof (induction obs arbitrary: r)
  case Nil
  show ?case by simp
next
  case (Cons ob obs)
  show ?case
  proof (cases "Register ob r")
    case (Pair po r')
    then have "conf r' = conf r" using Register_keeps [of ob r] by simp
    with Pair Cons [of r'] show ?thesis by (cases po) simp_all
  qed
qed

lemma dereferenceable_Elem: "dereferenceable (Obj t z) \<Longrightarrow> \<exists>el. Elem t = Inr el"
  by (cases "(Obj t z)" rule: dereferenceable.cases) auto

lemma register_ok:
  assumes "registrable ob"
  shows "\<exists>n. register ob r = (None, r\<lparr>objs := objs r @ [n], Server := Server r @ [ob]\<rparr>)"
proof (cases ob)
  case NilInterface
  with assms show ?thesis by (simp add: registrable_def)
next
  case (Obj t z)
  with assms obtain el where "Elem t = Inr el"
    using dereferenceable_Elem by (auto simp: registrable_def)
  with assms Obj have
    "register ob r = (None, r\<lparr>objs := objs r @ [Name el], Server := Server r @ [ob]\<rparr>)"
    by (simp add: register_def rpc_Register_def registrable_def)
  then show ?thesis by blast
qed

lemma register_nil_pointer:
  assumes "dereferenceable ob" and "nil_pointer ob"
  shows "\<exists>n. register ob r = (Some TypeOnZeroValue, r\<lparr>objs := objs r @ [n]\<rparr>)"
proof (cases ob)
  case NilInterface
  with assms show ?thesis by simp
next
  case (Obj t z)
  with assms obtain el where "Elem t = Inr el"
    using dereferenceable_Elem by auto
  with assms Obj have
    "register ob r = (Some TypeOnZeroValue, r\<lparr>objs := objs r @ [Name el]\<rparr>)"
    by (simp add: register_def rpc_Register_def)
  then show ?thesis by blast
qed

lemma register_bad:
  "\<not> dereferenceable ob \<Longrightarrow>
   register ob r =
     (Some (case ob of NilInterface \<Rightarrow> NilDereference | Obj t z \<Rightarrow> ElemOfInvalidType t), r)"
  by (cases "(ob)" rule: dereferenceable.cases) (auto simp: register_def)

lemma itoa_4: "itoa 4 = ''4''"
  by code_simp

lemma itoa_500: "itoa 500 = ''500''"
  by code_simp

lemma example_server_eq:
  "example_server =
     \<lparr>Server = [NewPingoRpc], secret = example_secret, objs = [''PingoRpc''],
      conf = makeConfig None None None, running = False\<rparr>"
  by (simp add: example_server_def newRpcServer_def register_def rpc_Register_def
      NewPingoRpc_def PingoRpc_def)

lemma example_secret_ok:
  "length example_secret = 64 \<and> list_all printable example_secret"
  by (simp add: example_secret_def printable_def)

lemma Registers_ok:
  "\<not> running r \<Longrightarrow> list_all registrable obs \<Longrightarrow>
   fst (Registers obs r) = None \<and> Server (snd (Registers obs r)) = Server r @ obs
   \<and> length (objs (snd (Registers obs r))) = length (objs r) + length obs
   \<and> \<not> running (snd (Registers obs r))"
proof (induction obs arbitrary: r)
  case Nil
  then show ?case by simp
next
  case (Cons ob obs)
  from Cons.prems have d: "registrable ob" and ds: "list_all registrable obs" by simp_all
  from register_ok [OF d, of r] obtain n where
    n: "register ob r = (None, r\<lparr>objs := objs r @ [n], Server := Server r @ [ob]\<rparr>)" by blast
  let ?r' = "r\<lparr>objs := objs r @ [n], Server := Server r @ [ob]\<rparr>"
  have nr: "\<not> running ?r'" using Cons.prems by simp
  have R: "Register ob r = (None, ?r')" using Cons.prems n by (simp add: Register_def)
  from Cons.IH [OF nr ds] R show ?case by simp
qed

lemma serveConn_bad:
  assumes "length (secret r) = 64" and "list_all printable (secret r)"
    and "take 64 (sent c) \<noteq> secret r"
  shows "serveConn ServeConn r c = (c\<lparr>pending := snd (ReadFull 64 (pending c)), closed := True\<rparr>, [])"
proof -
  have "fst (authConn r c) \<longleftrightarrow> take 64 (sent c) = secret r"
  proof (cases "length (sent c) < 64")
    case True
    then have "zero_byte \<in> set (replicate (64 - length (take 64 (sent c))) zero_byte)" by simp
    then have "take 64 (sent c) @ replicate (64 - length (take 64 (sent c))) zero_byte \<noteq> secret r"
      using assms(2) printable_not_zero by (metis Un_iff list_all_iff set_append)
    with assms(3) show ?thesis by (simp add: authConn_buf)
  next
    case False
    then show ?thesis by (simp add: authConn_buf)
  qed
  with assms(3) have "\<not> fst (authConn r c)" by simp
  moreover have "snd (authConn r c) = c\<lparr>pending := snd (ReadFull 64 (pending c))\<rparr>"
    by (simp add: authConn_def split: prod.splits)
  ultimately show ?thesis
    by (cases "authConn r c") (simp add: serveConn_def)
qed

lemma itoa_1024: "itoa 1024 = ''1024''"
  by code_simp

lemma itoa_1026: "itoa 1026 = ''1026''"
  by code_simp

lemma filter_accept_events_ListenCall: "filter is_ListenCall (accept_events h acs) = []"
  by (induction h acs rule: accept_events.induct) simp_all

lemma filter_accept_events_key: "k \<noteq> ''fatal'' \<Longrightarrow> filter (has_key k) (accept_events h acs) = []"
  by (induction h acs rule: accept_events.induct) simp_all

lemma filter_ListenCalls: "filter is_ListenCall (map (\<lambda>j. ListenCall p (g j)) xs) = map (\<lambda>j. ListenCall p (g j)) xs"
  by (induction xs) simp_all

lemma filter_key_ListenCalls: "filter (has_key k) (map (\<lambda>j. ListenCall p (g j)) xs) = []"
  by (induction xs) simp_all

lemma Run_stops:
  assumes "m < retry_limit r" and "\<forall>j<m. \<not> bind_ok e r j"
    and "bind_ok e r m \<or> Suc m = retry_limit r"
  shows "returned (Run e acs r) = Listen e m (scheme r) (cand e r m)"
    and "server (Run e acs r) =
       r\<lparr>running := True, conf := (conf r)\<lparr>proto := scheme r, addr := cand e r m\<rparr>\<rparr>"
    and "out (Run e acs r) =
       Output (prefix (conf r)) ''objects'' (Join (objs r) '', '') #
       map (\<lambda>j. ListenCall (scheme r) (cand e r j)) [0..<Suc m] @
       (if bind_ok e r m
        then [Output (prefix (conf r)) ''auth-token'' (secret r),
              Output (prefix (conf r)) ''ready''
                (''proto='' @ scheme r @ '' addr='' @ cand e r m)] @
             accept_events (prefix (conf r)) acs
        else [Output (prefix (conf r)) ''fatal'' (fatal_line e (retry_limit r) (scheme r))])"
    and "spawned (Run e acs r) = (if bind_ok e r m then accepted acs else [])"
proof -
  have m: "m < conn_retries (allocator r)"
      "\<forall>j<m. Listen e j (scheme r) (candidate e (allocator r) 0 j) \<noteq> None"
      "Listen e m (scheme r) (candidate e (allocator r) 0 m) = None
       \<or> Suc m = conn_retries (allocator r)"
    using assms by (simp_all add: retry_limit_def bind_ok_def cand_def)
  note rs = run_stops [OF m, of acs "secret r"]
  show "returned (Run e acs r) = Listen e m (scheme r) (cand e r m)"
    using rs by (simp add: Run_def cand_def)
  show "server (Run e acs r) =
       r\<lparr>running := True, conf := (conf r)\<lparr>proto := scheme r, addr := cand e r m\<rparr>\<rparr>"
    using rs by (simp add: Run_def cand_def)
  show "out (Run e acs r) =
       Output (prefix (conf r)) ''objects'' (Join (objs r) '', '') #
       map (\<lambda>j. ListenCall (scheme r) (cand e r j)) [0..<Suc m] @
       (if bind_ok e r m
        then [Output (prefix (conf r)) ''auth-token'' (secret r),
              Output (prefix (conf r)) ''ready''
                (''proto='' @ scheme r @ '' addr='' @ cand e r m)] @
             accept_events (prefix (conf r)) acs
        else [Output (prefix (conf r)) ''fatal'' (fatal_line e (retry_limit r) (scheme r))])"
    using rs
    by (cases "Listen e m (scheme r) (candidate e (allocator r) 0 m)")
       (simp_all add: Run_def cand_def bind_ok_def retry_limit_def del: upt_Suc)
  show "spawned (Run e acs r) = (if bind_ok e r m then accepted acs else [])"
    using rs
    by (cases "Listen e m (scheme r) (candidate e (allocator r) 0 m)")
       (simp_all add: Run_def cand_def bind_ok_def)
qed

lemma Run_stop_exists:
  "\<exists>m < retry_limit r. (\<forall>j<m. \<not> bind_ok e r j) \<and> (bind_ok e r m \<or> Suc m = retry_limit r)"
  using run_stop_exists [of r e] by (simp add: retry_limit_def bind_ok_def cand_def)

lemma listen_calls_Run:
  assumes "m < retry_limit r" and "\<forall>j<m. \<not> bind_ok e r j"
    and "bind_ok e r m \<or> Suc m = retry_limit r"
  shows "listen_calls (out (Run e acs r)) = map (\<lambda>j. ListenCall (scheme r) (cand e r j)) [0..<Suc m]"
  unfolding Run_stops(3) [OF assms] listen_calls_def
  by (simp add: filter_ListenCalls filter_accept_events_ListenCall del: upt_Suc)

lemma retry_limit_eq: "retry_limit r = (if proto (conf r) = ''tcp'' then 500 else 4)"
  by (simp add: retry_limit_def allocator_def tcp_retries_def unix_retries_def)

lemma cand_unix: "proto (conf r) \<noteq> ''tcp'' \<Longrightarrow> cand e r j = randstr e j 8"
  by (simp add: cand_def allocator_def candidate_unix)

lemma cand_tcp: "proto (conf r) = ''tcp'' \<Longrightarrow> j < 500 \<Longrightarrow> cand e r j = ''127.0.0.1:'' @ itoa (1024 + int j)"
  by (simp add: cand_def allocator_def candidate_tcp)

lemma unixdir_server_eq:
  "unixdir_server =
     \<lparr>Server = [NewPingoRpc], secret = example_secret, objs = [''PingoRpc''],
      conf = \<lparr>proto = ''unix'', addr = [], prefix = ''pingo'', unixdir = ''/tmp/plug''\<rparr>,
      running = False\<rparr>"
  by (simp add: unixdir_server_def newRpcServer_def register_def rpc_Register_def
      NewPingoRpc_def PingoRpc_def makeConfig_def)

lemma example_conf: "makeConfig None None None = \<lparr>proto = ''unix'', addr = [], prefix = ''pingo'', unixdir = []\<rparr>"
  by (simp add: makeConfig_def)

lemma stops_at_iff:
  "stops_at e r m \<longleftrightarrow>
     m < retry_limit r \<and> (\<forall>j<m. \<not> bind_ok e r j) \<and> (bind_ok e r m \<or> Suc m = retry_limit r)"
  by (auto simp: stops_at_def list_all_iff)

lemma stops_at_exists: "\<exists>m. stops_at e r m"
  using Run_stop_exists [of r e] by (auto simp: stops_at_iff)

lemma tcp_server_eq:
  "tcp_server =
     \<lparr>Server = [NewPingoRpc], secret = example_secret, objs = [''PingoRpc''],
      conf = \<lparr>proto = ''tcp'', addr = [], prefix = ''pingo'', unixdir = []\<rparr>,
      running = False\<rparr>"
  by (simp add: tcp_server_def newRpcServer_def register_def rpc_Register_def
      NewPingoRpc_def PingoRpc_def makeConfig_def)

lemma upt_4: "[0..<Suc 3] = [0, 1, 2, 3]"
  by (simp add: upt_rec)

lemma collide_bind_ok: "bind_ok collide_env r j \<longleftrightarrow> \<not> j < 3"
  by (simp add: bind_ok_def collide_env_def)

lemma taken_bind_ok: "\<not> bind_ok taken_env r j"
  by (simp add: bind_ok_def taken_env_def)

section \<open>Properties\<close>

subsection \<open>Authentication\<close>

text \<open>
  C1. When the secret is 64 printable bytes, \<^verbatim>\<open>authConn\<close> returns true if and only if the
  first 64 bytes the connection delivers, in however many reads, are the secret. A
  connection that delivers fewer than 64 bytes, or one of whose first 64 bytes differs
  from the secret, is refused.
\<close>

theorem authConn_iff:
  assumes len: "length (secret r) = 64" and pr: "list_all printable (secret r)"
  shows "(fst (authConn r c) \<longleftrightarrow> take 64 (sent c) = secret r)
       \<and> (length (sent c) < 64 \<longrightarrow> \<not> fst (authConn r c))
       \<and> ((\<exists>i < 64. i < length (sent c) \<and> sent c ! i \<noteq> secret r ! i) \<longrightarrow> \<not> fst (authConn r c))"
proof -
  let ?bs = "take 64 (sent c)"
  let ?pad = "replicate (64 - length ?bs) zero_byte"
  have short: "?bs @ ?pad \<noteq> secret r" if "length (sent c) < 64"
  proof
    assume eq: "?bs @ ?pad = secret r"
    from that have "zero_byte \<in> set ?pad" by simp
    then have "zero_byte \<in> set (secret r)" using eq by (metis Un_iff set_append)
    with pr show False using printable_not_zero by (auto simp: list_all_iff)
  qed
  have full: "?bs @ ?pad = ?bs" if "\<not> length (sent c) < 64"
    using that by simp
  have iff: "fst (authConn r c) \<longleftrightarrow> ?bs = secret r"
  proof (cases "length (sent c) < 64")
    case True
    then have "?bs \<noteq> secret r" using len by auto
    with short [OF True] show ?thesis by (simp add: authConn_buf)
  next
    case False
    with full show ?thesis by (simp add: authConn_buf)
  qed
  have diff: "\<not> fst (authConn r c)" if "\<exists>i < 64. i < length (sent c) \<and> sent c ! i \<noteq> secret r ! i"
  proof
    assume "fst (authConn r c)"
    with iff have e: "take 64 (sent c) = secret r" by simp
    from that obtain i where i: "i < 64" "i < length (sent c)" "sent c ! i \<noteq> secret r ! i" by blast
    from i have "take 64 (sent c) ! i = sent c ! i" by simp
    with e i show False by simp
  qed
  from iff short diff show ?thesis by (auto simp: authConn_buf)
qed

theorem authConn_iff_witness:
  "length (secret example_server) = 64 \<and> list_all printable (secret example_server)
   \<and> fst (authConn example_server good_peer) \<and> length (sent bad_peer) \<ge> 64
   \<and> \<not> fst (authConn example_server bad_peer)"
proof -
  have h1: "length (secret example_server) = 64"
    using example_secret_ok by (simp add: example_server_eq)
  have h2: "list_all printable (secret example_server)"
    using example_secret_ok by (simp add: example_server_eq)
  have g: "take 64 (sent good_peer) = secret example_server"
    by (simp add: sent_def good_peer_def example_server_eq example_secret_def)
  have b: "take 64 (sent bad_peer) \<noteq> secret example_server"
    by (simp add: sent_def bad_peer_def example_server_eq example_secret_def)
  have l: "length (sent bad_peer) \<ge> 64"
    by (simp add: sent_def bad_peer_def example_secret_def)
  from authConn_iff [OF h1 h2, of good_peer] authConn_iff [OF h1 h2, of bad_peer] g b h1 h2 l
  show ?thesis by simp
qed

subsection \<open>Registration\<close>

text \<open>
  C3, as amended. While \<open>running\<close> is false, any number of \<^verbatim>\<open>Register\<close> calls whose
  arguments are pointers that are not nil (or of another kind that \<^verbatim>\<open>Elem\<close> accepts)
  succeeds, each call handing its object to the engine and adding one name. Once
  \<open>running\<close> is true, which it is after \<^verbatim>\<open>Run\<close> has started, every call panics with the
  message \<^verbatim>\<open>Do not call Register after Run\<close> and leaves the server as it was.
\<close>

theorem Register_lifecycle:
  "(\<not> running r \<and> list_all registrable obs \<longrightarrow>
      fst (Registers obs r) = None \<and> Server (snd (Registers obs r)) = Server r @ obs
      \<and> length (objs (snd (Registers obs r))) = length (objs r) + length obs)
   \<and> (running r' \<longrightarrow> Register ob r' = (Some (Panic ''Do not call Register after Run''), r'))
   \<and> Register ob (server (Run e acs r)) =
        (Some (Panic ''Do not call Register after Run''), server (Run e acs r))"
proof -
  obtain m where m: "m < conn_retries (allocator r)"
     "\<forall>j<m. Listen e j (scheme r) (candidate e (allocator r) 0 j) \<noteq> None"
     "Listen e m (scheme r) (candidate e (allocator r) 0 m) = None
      \<or> Suc m = conn_retries (allocator r)"
    using run_stop_exists by blast
  have "running (server (Run e acs r))"
    using run_stops [OF m, of acs "secret r"] by (simp add: Run_def)
  then show ?thesis
    using Registers_ok [of r obs] by (simp add: Register_def)
qed

theorem Register_lifecycle_witness:
  "\<not> running example_server
   \<and> list_all registrable
        [Obj (RType [] (Ptr (RType ''Calc'' Other))) False,
         Obj (RType [] (Ptr (RType ''Echo'' Other))) False]
   \<and> fst (Registers
        [Obj (RType [] (Ptr (RType ''Calc'' Other))) False,
         Obj (RType [] (Ptr (RType ''Echo'' Other))) False] example_server) = None
   \<and> running (example_server\<lparr>running := True\<rparr>)
   \<and> Register (Obj (RType [] (Ptr (RType ''Calc'' Other))) False)
        (example_server\<lparr>running := True\<rparr>)
       = (Some (Panic ''Do not call Register after Run''), example_server\<lparr>running := True\<rparr>)"
  using Register_lifecycle [of example_server
      "[Obj (RType [] (Ptr (RType ''Calc'' Other))) False,
        Obj (RType [] (Ptr (RType ''Echo'' Other))) False]"
      "example_server\<lparr>running := True\<rparr>"
      "Obj (RType [] (Ptr (RType ''Calc'' Other))) False" free_env "[]"]
  by (simp add: example_server_eq registrable_def)

text \<open>
  C3 as stated fails: before the bootstrap, on the freshly built server, \<^verbatim>\<open>Register\<close>
  of a struct value (not a pointer) panics in the type-name derivation, and \<^verbatim>\<open>Register\<close>
  of a nil pointer panics in the engine, after its name was added.
\<close>

theorem Register_struct_value_panics:
  "\<not> running example_server
   \<and> Register (Obj (RType ''Calc'' Other) False) example_server
       = (Some (ElemOfInvalidType (RType ''Calc'' Other)), example_server)
   \<and> Register (Obj (RType [] (Ptr (RType ''Calc'' Other))) True) example_server
       = (Some TypeOnZeroValue, example_server\<lparr>objs := [''PingoRpc'', ''Calc'']\<rparr>)"
  by (simp add: example_server_eq Register_def register_def rpc_Register_def)

text \<open>
  C10. \<^verbatim>\<open>Register\<close> of a value that is the \<^verbatim>\<open>nil\<close> interface or whose kind \<^verbatim>\<open>Elem\<close> does
  not accept panics in the type-name derivation even while \<open>running\<close> is false, leaving
  the server as it was; so \<^verbatim>\<open>Register\<close> succeeds only if \<open>running\<close> is false and the
  value is of a kind \<^verbatim>\<open>Elem\<close> accepts.
\<close>

theorem Register_needs_pointer:
  "(\<not> dereferenceable ob \<and> \<not> running r \<longrightarrow>
      Register ob r =
        (Some (case ob of NilInterface \<Rightarrow> NilDereference | Obj t z \<Rightarrow> ElemOfInvalidType t), r))
   \<and> (fst (Register ob r) = None \<longrightarrow> \<not> running r \<and> dereferenceable ob)"
proof (cases "dereferenceable ob")
  case True
  then show ?thesis by (auto simp: Register_def)
next
  case False
  from register_bad [OF False, of r] show ?thesis using False by (auto simp: Register_def)
qed

theorem Register_needs_pointer_witness:
  "\<not> dereferenceable (Obj PingoRpc False) \<and> \<not> running example_server
   \<and> Register (Obj PingoRpc False) example_server
       = (Some (ElemOfInvalidType PingoRpc), example_server)
   \<and> \<not> dereferenceable NilInterface
   \<and> Register NilInterface example_server = (Some NilDereference, example_server)
   \<and> fst (Register NewPingoRpc example_server) = None
   \<and> dereferenceable NewPingoRpc"
proof -
  have ok: "fst (Register NewPingoRpc example_server) = None"
    by (simp add: example_server_eq Register_def register_def rpc_Register_def
        NewPingoRpc_def PingoRpc_def)
  from Register_needs_pointer [of "Obj PingoRpc False" example_server]
       Register_needs_pointer [of NilInterface example_server]
       Register_needs_pointer [of NewPingoRpc example_server] ok
  show ?thesis by (simp add: example_server_eq PingoRpc_def)
qed

text \<open>
  C9. \<^verbatim>\<open>newRpcServer\<close> does not panic and returns a server whose name list is exactly
  \<^verbatim>\<open>PingoRpc\<close>; a \<^verbatim>\<open>Register\<close> call only appends to the list; so after any sequence of
  \<^verbatim>\<open>Register\<close> calls the list starts with \<^verbatim>\<open>PingoRpc\<close>, and the first line \<^verbatim>\<open>Run\<close> writes
  is the objects line, whose value starts with \<^verbatim>\<open>PingoRpc\<close>.
\<close>

theorem PingoRpc_first:
  "\<exists>r0. newRpcServer s c = (None, r0) \<and> objs r0 = [''PingoRpc''] \<and> \<not> running r0
     \<and> (\<exists>ns. objs (snd (Register ob r)) = objs r @ ns)
     \<and> (\<exists>rest. objs (snd (Registers obs r0)) = ''PingoRpc'' # rest)
     \<and> hd (objs (snd (Registers obs r0))) = ''PingoRpc''
     \<and> (\<exists>v. hd (out (Run e acs (snd (Registers obs r0))))
             = Output (prefix c) ''objects'' (''PingoRpc'' @ v))"
proof -
  define r0 where "r0 = \<lparr>Server = [NewPingoRpc], secret = s, objs = [''PingoRpc''], conf = c, running = False\<rparr>"
  have n: "newRpcServer s c = (None, r0)"
    by (simp add: newRpcServer_def register_def rpc_Register_def NewPingoRpc_def PingoRpc_def
        r0_def)
  obtain ns where ns: "objs (snd (Registers obs r0)) = objs r0 @ ns"
    using Registers_appends by blast
  then have o: "objs (snd (Registers obs r0)) = ''PingoRpc'' # ns" by (simp add: r0_def)
  let ?r = "snd (Registers obs r0)"
  have pc: "prefix (conf ?r) = prefix c" using Registers_keeps [of obs r0] by (simp add: r0_def)
  obtain m where m: "m < conn_retries (allocator ?r)"
     "\<forall>j<m. Listen e j (scheme ?r) (candidate e (allocator ?r) 0 j) \<noteq> None"
     "Listen e m (scheme ?r) (candidate e (allocator ?r) 0 m) = None
      \<or> Suc m = conn_retries (allocator ?r)"
    using run_stop_exists by blast
  obtain v where v: "Join (''PingoRpc'' # ns) '', '' = ''PingoRpc'' @ v"
    using Join_Cons by blast
  have "hd (out (Run e acs ?r)) = Output (prefix c) ''objects'' (''PingoRpc'' @ v)"
    using run_stops [OF m, of acs "secret ?r"] o pc v by (simp add: Run_def)
  with n o Register_appends [of ob r] show ?thesis by (auto simp: r0_def)
qed

subsection \<open>Rejected connections\<close>

text \<open>
  C8. The secret being 64 printable bytes, among any number of connections handled, each
  one whose first 64 bytes are not the secret is closed by \<^verbatim>\<open>serveConn\<close>, is not handed
  to the engine's \<^verbatim>\<open>ServeConn\<close>, and has nothing written to it. A handler touches only
  its own connection and reads the secret, which nothing assigns after construction, so
  the handlers of a list of connections are independent of each other.
\<close>

theorem serveConn_rejects:
  assumes "length (secret r) = 64" and "list_all printable (secret r)"
    and "i < length cs" and "take 64 (sent (cs ! i)) \<noteq> secret r"
  shows "snd (handlers ServeConn r cs ! i) = []
       \<and> closed (fst (handlers ServeConn r cs ! i))
       \<and> written (fst (handlers ServeConn r cs ! i)) = written (cs ! i)"
  using assms(3) serveConn_bad [OF assms(1,2,4), of ServeConn]
  by (simp add: handlers_def)

theorem serveConn_rejects_witness:
  "length (secret example_server) = 64 \<and> list_all printable (secret example_server)
   \<and> (1::nat) < length [good_peer, bad_peer, bad_peer]
   \<and> take 64 (sent ([good_peer, bad_peer, bad_peer] ! 1)) \<noteq> secret example_server
   \<and> snd (handlers (\<lambda>c. c\<lparr>written := ''reply''\<rparr>) example_server [good_peer, bad_peer, bad_peer] ! 1) = []
   \<and> closed (fst (handlers (\<lambda>c. c\<lparr>written := ''reply''\<rparr>) example_server [good_peer, bad_peer, bad_peer] ! 1))
   \<and> written (fst (handlers (\<lambda>c. c\<lparr>written := ''reply''\<rparr>) example_server [good_peer, bad_peer, bad_peer] ! 1)) = []"
proof -
  have h1: "length (secret example_server) = 64"
    using example_secret_ok by (simp add: example_server_eq)
  have h2: "list_all printable (secret example_server)"
    using example_secret_ok by (simp add: example_server_eq)
  have h3: "(1::nat) < length [good_peer, bad_peer, bad_peer]" by simp
  have h4: "take 64 (sent ([good_peer, bad_peer, bad_peer] ! 1)) \<noteq> secret example_server"
    by (simp add: sent_def bad_peer_def example_server_eq example_secret_def)
  have w: "written ([good_peer, bad_peer, bad_peer] ! 1) = []"
    by (simp add: bad_peer_def)
  from serveConn_rejects [OF h1 h2 h3 h4, of "\<lambda>c. c\<lparr>written := ''reply''\<rparr>"] h1 h2 h3 h4 w
  show ?thesis by simp
qed

subsection \<open>The TCP allocator\<close>

text \<open>
  C5. From the zero cursor the first address is \<^verbatim>\<open>127.0.0.1:1024\<close>; every address is
  \<^verbatim>\<open>127.0.0.1:\<close> followed by the new cursor in decimal; the \<open>n\<close>-th call yields port
  \<open>1023 + n\<close>, which is at least 1024 and one more than the port before it. This covers
  every call the cursor's type can count, up to the one that yields the largest \<^verbatim>\<open>int\<close>;
  the only user of the allocator, \<^verbatim>\<open>run\<close>, makes at most 500 calls on a fresh cursor.
\<close>

theorem tcp_ports:
  "tcp_addr 0 = (''127.0.0.1:1024'', 1024)
   \<and> fst (tcp_addr t) = ''127.0.0.1:'' @ itoa (sint (snd (tcp_addr t)))
   \<and> (0 < n \<and> n \<le> 2 ^ 63 - 1024 \<longrightarrow>
        sint (tcp_after n 0) = 1023 + int n
        \<and> 1024 \<le> sint (tcp_after n 0)
        \<and> fst (tcp_addr (tcp_after (n - 1) 0)) = ''127.0.0.1:'' @ itoa (1023 + int n))
   \<and> (0 < n \<and> n < 2 ^ 63 - 1024 \<longrightarrow>
        sint (tcp_after (Suc n) 0) = sint (tcp_after n 0) + 1)"
proof -
  have first: "tcp_addr 0 = (''127.0.0.1:1024'', 1024)"
    by (simp add: tcp_addr_def Let_def itoa_1024)
  have port: "sint (tcp_after n 0) = 1023 + int n" if "0 < n" "n \<le> 2 ^ 63 - 1024" for n
    using that by (rule tcp_after_port)
  have form: "fst (tcp_addr (tcp_after (n - 1) 0)) = ''127.0.0.1:'' @ itoa (1023 + int n)"
    if "0 < n" "n \<le> 2 ^ 63 - 1024"
  proof -
    from that(1) obtain k where k: "n = Suc k" by (cases n) auto
    then have "snd (tcp_addr (tcp_after (n - 1) 0)) = tcp_after n 0" by simp
    with port [OF that] show ?thesis by (simp add: tcp_addr_form)
  qed
  have step: "sint (tcp_after (Suc n) 0) = sint (tcp_after n 0) + 1"
    if "0 < n" "n < 2 ^ 63 - 1024"
  proof -
    have "sint (tcp_after (Suc n) 0) = 1023 + int (Suc n)"
      using that by (intro port) simp_all
    moreover have "sint (tcp_after n 0) = 1023 + int n"
      using that by (intro port) simp_all
    ultimately show ?thesis by simp
  qed
  from first form step port show ?thesis
    by (simp add: tcp_addr_form)
qed

theorem tcp_ports_witness:
  "(0::nat) < 3 \<and> (3::nat) < 2 ^ 63 - 1024
   \<and> sint (tcp_after 3 0) = 1026
   \<and> fst (tcp_addr (tcp_after 2 0)) = ''127.0.0.1:1026''
   \<and> sint (tcp_after 4 0) = sint (tcp_after 3 0) + 1"
proof -
  have b: "(3::nat) < 2 ^ 63 - 1024" by simp
  have n2: "(3::nat) - 1 = 2" by simp
  have n4: "Suc 3 = 4" by simp
  from tcp_ports [of 0 3] b show ?thesis
    by (simp only: n2 n4) (simp add: itoa_1026)
qed

subsection \<open>The bootstrap\<close>

text \<open>
  C2, what the code does. With the base directory \<^verbatim>\<open>/tmp/plug\<close> configured, an allocator
  carrying it would produce \<^verbatim>\<open>/tmp/plug/abcdefgh\<close> from the name \<^verbatim>\<open>abcdefgh\<close>, but \<^verbatim>\<open>run\<close>
  makes its allocator with \<^verbatim>\<open>new(unix)\<close>, the empty directory, and never reads
  \<^verbatim>\<open>conf.unixdir\<close>: the address it binds and reports is the bare name.
\<close>

theorem unixdir_not_used:
  "unixdir (conf unixdir_server) = ''/tmp/plug''
   \<and> unix_addr free_env 0 (unixdir (conf unixdir_server)) = ''/tmp/plug/abcdefgh''
   \<and> out (Run free_env [] unixdir_server) =
       [Output ''pingo'' ''objects'' ''PingoRpc'',
        ListenCall ''unix'' ''abcdefgh'',
        Output ''pingo'' ''auth-token'' example_secret,
        Output ''pingo'' ''ready'' ''proto=unix addr=abcdefgh'']"
proof -
  have p: "proto (conf unixdir_server) \<noteq> ''tcp''" by (simp add: unixdir_server_eq)
  have c: "cand free_env unixdir_server j = ''abcdefgh''" for j
    using cand_unix [OF p] by (simp add: free_env_def)
  have ok: "bind_ok free_env unixdir_server j" for j
    by (simp add: bind_ok_def free_env_def)
  have a1: "0 < retry_limit unixdir_server" by (simp add: retry_limit_eq)
  have a2: "\<forall>j<0. \<not> bind_ok free_env unixdir_server j" by simp
  have a3: "bind_ok free_env unixdir_server 0 \<or> Suc 0 = retry_limit unixdir_server"
    using ok by simp
  have s: "scheme unixdir_server = ''unix''" by (simp add: scheme_def unixdir_server_eq)
  have "out (Run free_env [] unixdir_server) =
       [Output ''pingo'' ''objects'' ''PingoRpc'',
        ListenCall ''unix'' ''abcdefgh'',
        Output ''pingo'' ''auth-token'' example_secret,
        Output ''pingo'' ''ready'' ''proto=unix addr=abcdefgh'']"
    unfolding Run_stops(3) [OF a1 a2 a3]
    by (simp add: ok c s) (simp add: unixdir_server_eq)
  moreover have "unix_addr free_env 0 (unixdir (conf unixdir_server)) = ''/tmp/plug/abcdefgh''"
    by (simp add: unix_addr_def free_env_def unixdir_server_eq)
  ultimately show ?thesis by (simp add: unixdir_server_eq)
qed

text \<open>
  C6, what the code does. When every bind fails, the value of the fatal line is the error
  code, then \<^verbatim>\<open>: Could not connect in 4 attemps, using unix protocol\<close>: the format string
  of \<^verbatim>\<open>run\<close> spells the word \<^verbatim>\<open>attemps\<close>.
\<close>

theorem fatal_line_spelling:
  "returned (Run taken_env [] example_server) = Some ''address already in use''
   \<and> last (out (Run taken_env [] example_server)) =
       Output ''pingo'' ''fatal''
         ''err-connection-failed: Could not connect in 4 attemps, using unix protocol''"
proof -
  have p: "proto (conf example_server) \<noteq> ''tcp''" by (simp add: example_server_eq example_conf)
  have no: "\<not> bind_ok taken_env example_server j" for j
    by (simp add: bind_ok_def taken_env_def)
  have n: "retry_limit example_server = 4" using p by (simp add: retry_limit_eq)
  have a1: "3 < retry_limit example_server" by (simp add: n)
  have a2: "\<forall>j<3. \<not> bind_ok taken_env example_server j" using no by simp
  have a3: "bind_ok taken_env example_server 3 \<or> Suc 3 = retry_limit example_server"
    by (simp add: n)
  have s: "scheme example_server = ''unix''" using p by (simp add: scheme_def)
  have "returned (Run taken_env [] example_server) = Some ''address already in use''"
    unfolding Run_stops(1) [OF a1 a2 a3] by (simp add: taken_env_def)
  moreover have "last (out (Run taken_env [] example_server)) =
       Output ''pingo'' ''fatal''
         ''err-connection-failed: Could not connect in 4 attemps, using unix protocol''"
    unfolding Run_stops(3) [OF a1 a2 a3]
    by (simp add: no n s fatal_line_def itoa_4 del: upt_Suc)
       (simp add: example_server_eq example_conf taken_env_def)
  ultimately show ?thesis by simp
qed

text \<open>
  C4. The retry limit is 500 for \<^verbatim>\<open>tcp\<close> and 4 otherwise, and \<^verbatim>\<open>Run\<close> never calls
  \<^verbatim>\<open>net.Listen\<close> more often than that. If candidate \<open>m\<close> is within the limit and the
  first to bind, the bootstrap succeeds with that address after exactly \<open>m + 1\<close> calls.
  If no candidate within the limit binds, \<^verbatim>\<open>Run\<close> has made exactly as many calls as the
  limit, its last line is the fatal line, which contains the limit in decimal, and it
  returns the error of the last call. The candidates are the names drawn, for the
  Unix-domain scheme, and the ports from 1024 up, for \<^verbatim>\<open>tcp\<close>.
\<close>

theorem bind_retry_limit:
  "retry_limit r = (if proto (conf r) = ''tcp'' then 500 else 4)
   \<and> length (listen_calls (out (Run e acs r))) \<le> retry_limit r
   \<and> (m < retry_limit r \<and> (\<forall>j<m. \<not> bind_ok e r j) \<and> bind_ok e r m \<longrightarrow>
        returned (Run e acs r) = None
        \<and> addr (conf (server (Run e acs r))) = cand e r m
        \<and> listen_calls (out (Run e acs r)) =
            map (\<lambda>j. ListenCall (scheme r) (cand e r j)) [0..<Suc m])
   \<and> ((\<forall>j<retry_limit r. \<not> bind_ok e r j) \<longrightarrow>
        returned (Run e acs r) =
          Listen e (retry_limit r - 1) (scheme r) (cand e r (retry_limit r - 1))
        \<and> returned (Run e acs r) \<noteq> None
        \<and> listen_calls (out (Run e acs r)) =
            map (\<lambda>j. ListenCall (scheme r) (cand e r j)) [0..<retry_limit r]
        \<and> last (out (Run e acs r)) =
            Output (prefix (conf r)) ''fatal''
              (errorCodeConnFailed e @ '': Could not connect in '' @
               (if proto (conf r) = ''tcp'' then ''500'' else ''4'') @
               '' attemps, using '' @ scheme r @ '' protocol''))
   \<and> (proto (conf r) \<noteq> ''tcp'' \<longrightarrow> cand e r j = randstr e j 8)
   \<and> (proto (conf r) = ''tcp'' \<and> j < 500 \<longrightarrow> cand e r j = ''127.0.0.1:'' @ itoa (1024 + int j))"
proof -
  have limit: "length (listen_calls (out (Run e acs r))) \<le> retry_limit r"
  proof -
    obtain k where k: "k < retry_limit r" "\<forall>j<k. \<not> bind_ok e r j"
        "bind_ok e r k \<or> Suc k = retry_limit r"
      using Run_stop_exists by blast
    show ?thesis unfolding listen_calls_Run [OF k] using k(1) by simp
  qed
  have success: "returned (Run e acs r) = None
        \<and> addr (conf (server (Run e acs r))) = cand e r m
        \<and> listen_calls (out (Run e acs r)) =
            map (\<lambda>j. ListenCall (scheme r) (cand e r j)) [0..<Suc m]"
    if a: "m < retry_limit r" "\<forall>j<m. \<not> bind_ok e r j" and ok: "bind_ok e r m"
  proof -
    from ok have a3: "bind_ok e r m \<or> Suc m = retry_limit r" by simp
    from ok have "Listen e m (scheme r) (cand e r m) = None" by (simp add: bind_ok_def)
    then show ?thesis
      using Run_stops(1,2) [OF a a3, of acs] listen_calls_Run [OF a a3, of acs] by simp
  qed
  have failure: "returned (Run e acs r) =
          Listen e (retry_limit r - 1) (scheme r) (cand e r (retry_limit r - 1))
        \<and> returned (Run e acs r) \<noteq> None
        \<and> listen_calls (out (Run e acs r)) =
            map (\<lambda>j. ListenCall (scheme r) (cand e r j)) [0..<retry_limit r]
        \<and> last (out (Run e acs r)) =
            Output (prefix (conf r)) ''fatal''
              (errorCodeConnFailed e @ '': Could not connect in '' @
               (if proto (conf r) = ''tcp'' then ''500'' else ''4'') @
               '' attemps, using '' @ scheme r @ '' protocol'')"
    if all: "\<forall>j<retry_limit r. \<not> bind_ok e r j"
  proof -
    define k where "k = retry_limit r - 1"
    have pos: "0 < retry_limit r" by (simp add: retry_limit_eq)
    then have sk: "Suc k = retry_limit r" by (simp add: k_def)
    have a1: "k < retry_limit r" using sk by simp
    have a2: "\<forall>j<k. \<not> bind_ok e r j" using all a1 by simp
    have a3: "bind_ok e r k \<or> Suc k = retry_limit r" using sk by simp
    have no: "\<not> bind_ok e r k" using all a1 by simp
    then have ne: "Listen e k (scheme r) (cand e r k) \<noteq> None" by (simp add: bind_ok_def)
    have fl: "fatal_line e (retry_limit r) (scheme r) =
        errorCodeConnFailed e @ '': Could not connect in '' @
               (if proto (conf r) = ''tcp'' then ''500'' else ''4'') @
               '' attemps, using '' @ scheme r @ '' protocol''"
      by (simp add: fatal_line_def retry_limit_eq itoa_4 itoa_500)
    have l: "last (out (Run e acs r)) =
            Output (prefix (conf r)) ''fatal''
              (errorCodeConnFailed e @ '': Could not connect in '' @
               (if proto (conf r) = ''tcp'' then ''500'' else ''4'') @
               '' attemps, using '' @ scheme r @ '' protocol'')"
      unfolding Run_stops(3) [OF a1 a2 a3] fl [symmetric] using no by (simp del: upt_Suc)
    have r1: "returned (Run e acs r) = Listen e k (scheme r) (cand e r k)"
      by (rule Run_stops(1) [OF a1 a2 a3])
    have r2: "returned (Run e acs r) \<noteq> None" using r1 ne by simp
    have r3: "listen_calls (out (Run e acs r)) =
            map (\<lambda>j. ListenCall (scheme r) (cand e r j)) [0..<retry_limit r]"
      using listen_calls_Run [OF a1 a2 a3, of acs] by (simp only: sk)
    from r1 r2 r3 l show ?thesis unfolding k_def by blast
  qed
  from limit success failure retry_limit_eq [of r] cand_unix [of r e j] cand_tcp [of r j e]
  show ?thesis by blast
qed

theorem bind_retry_limit_witness:
  "(3::nat) < retry_limit example_server
   \<and> \<not> bind_ok collide_env example_server 0 \<and> \<not> bind_ok collide_env example_server 1
   \<and> \<not> bind_ok collide_env example_server 2 \<and> bind_ok collide_env example_server 3
   \<and> returned (Run collide_env [] example_server) = None
   \<and> addr (conf (server (Run collide_env [] example_server))) = ''dddddddd''
   \<and> listen_calls (out (Run collide_env [] example_server)) =
       [ListenCall ''unix'' ''aaaaaaaa'', ListenCall ''unix'' ''bbbbbbbb'',
        ListenCall ''unix'' ''cccccccc'', ListenCall ''unix'' ''dddddddd'']
   \<and> returned (Run taken_env [] example_server) = Some ''address already in use''
   \<and> last (out (Run taken_env [] example_server)) =
       Output ''pingo'' ''fatal''
         ''err-connection-failed: Could not connect in 4 attemps, using unix protocol''
   \<and> length (listen_calls (out (Run taken_env [] tcp_server))) = 500
   \<and> last (out (Run taken_env [] tcp_server)) =
       Output ''pingo'' ''fatal''
         ''err-connection-failed: Could not connect in 500 attemps, using tcp protocol''"
proof -
  have pu: "proto (conf example_server) \<noteq> ''tcp''" by (simp add: example_server_eq example_conf)
  have pt: "proto (conf tcp_server) = ''tcp''" by (simp add: tcp_server_eq)
  have su: "scheme example_server = ''unix''" using pu by (simp add: scheme_def)
  have st: "scheme tcp_server = ''tcp''" using pt by (simp add: scheme_def)
  have hu: "prefix (conf example_server) = ''pingo''" by (simp add: example_server_eq example_conf)
  have ht: "prefix (conf tcp_server) = ''pingo''" by (simp add: tcp_server_eq)
  note A = bind_retry_limit [of example_server collide_env "[]" 3 0]
  have n: "retry_limit example_server = 4" using A pu by simp
  have h1: "(3::nat) < retry_limit example_server" by (simp add: n)
  have h2: "\<forall>j<3. \<not> bind_ok collide_env example_server j" by (simp add: collide_bind_ok)
  have h3: "bind_ok collide_env example_server 3" by (simp add: collide_bind_ok)
  have cu: "cand collide_env example_server j = randstr collide_env j 8" for j
    using bind_retry_limit [of example_server collide_env "[]" 3 j] pu by blast
  from A h1 h2 h3 have
    a: "returned (Run collide_env [] example_server) = None
        \<and> addr (conf (server (Run collide_env [] example_server))) = cand collide_env example_server 3
        \<and> listen_calls (out (Run collide_env [] example_server)) =
            map (\<lambda>j. ListenCall (scheme example_server) (cand collide_env example_server j)) [0..<Suc 3]"
    by blast
  have a': "returned (Run collide_env [] example_server) = None
   \<and> addr (conf (server (Run collide_env [] example_server))) = ''dddddddd''
   \<and> listen_calls (out (Run collide_env [] example_server)) =
       [ListenCall ''unix'' ''aaaaaaaa'', ListenCall ''unix'' ''bbbbbbbb'',
        ListenCall ''unix'' ''cccccccc'', ListenCall ''unix'' ''dddddddd'']"
    using a unfolding upt_4 by (simp add: cu su) (simp add: collide_env_def)
  note B = bind_retry_limit [of example_server taken_env "[]" 0 0]
  have b0: "\<forall>j<retry_limit example_server. \<not> bind_ok taken_env example_server j"
    by (simp add: taken_bind_ok)
  from B b0 have
    b: "returned (Run taken_env [] example_server) =
          Listen taken_env (retry_limit example_server - 1) (scheme example_server)
            (cand taken_env example_server (retry_limit example_server - 1))
        \<and> last (out (Run taken_env [] example_server)) =
            Output (prefix (conf example_server)) ''fatal''
              (errorCodeConnFailed taken_env @ '': Could not connect in '' @
               (if proto (conf example_server) = ''tcp'' then ''500'' else ''4'') @
               '' attemps, using '' @ scheme example_server @ '' protocol'')"
    by blast
  have b': "returned (Run taken_env [] example_server) = Some ''address already in use''
   \<and> last (out (Run taken_env [] example_server)) =
       Output ''pingo'' ''fatal''
         ''err-connection-failed: Could not connect in 4 attemps, using unix protocol''"
    using b pu by (simp add: su hu) (simp add: taken_env_def)
  note C = bind_retry_limit [of tcp_server taken_env "[]" 0 0]
  have nt: "retry_limit tcp_server = 500" using C pt by simp
  have c0: "\<forall>j<retry_limit tcp_server. \<not> bind_ok taken_env tcp_server j"
    by (simp add: taken_bind_ok)
  from C c0 have
    c: "listen_calls (out (Run taken_env [] tcp_server)) =
            map (\<lambda>j. ListenCall (scheme tcp_server) (cand taken_env tcp_server j)) [0..<retry_limit tcp_server]
        \<and> last (out (Run taken_env [] tcp_server)) =
            Output (prefix (conf tcp_server)) ''fatal''
              (errorCodeConnFailed taken_env @ '': Could not connect in '' @
               (if proto (conf tcp_server) = ''tcp'' then ''500'' else ''4'') @
               '' attemps, using '' @ scheme tcp_server @ '' protocol'')"
    by blast
  have c': "length (listen_calls (out (Run taken_env [] tcp_server))) = 500
   \<and> last (out (Run taken_env [] tcp_server)) =
       Output ''pingo'' ''fatal''
         ''err-connection-failed: Could not connect in 500 attemps, using tcp protocol''"
    using c pt by (simp add: st ht nt) (simp add: taken_env_def)
  from h1 h2 h3 a' b' c' show ?thesis by simp
qed

text \<open>
  C7. Every \<^verbatim>\<open>Run\<close> has a last bind attempt \<open>m\<close>. What it writes is the objects line
  (the names joined by a comma and a space), then the \<open>m + 1\<close> bind attempts, then, if
  the last attempt binds, the auth-token line with the secret, the ready line with the
  final scheme and address, and whatever the accept loop reports; otherwise the fatal
  line. So the objects line is written exactly once and before any bind attempt, and
  the auth-token and ready lines are written exactly once each, in that order, if a bind
  succeeds, and not at all if none does.
\<close>

theorem handshake_order:
  "(\<exists>k. stops_at e r k)
   \<and> (stops_at e r m \<longrightarrow>
        out (Run e acs r) =
          Output (prefix (conf r)) ''objects'' (Join (objs r) '', '') #
          map (\<lambda>j. ListenCall (scheme r) (cand e r j)) [0..<Suc m] @
          (if bind_ok e r m
           then [Output (prefix (conf r)) ''auth-token'' (secret r),
                 Output (prefix (conf r)) ''ready''
                   (''proto='' @ scheme r @ '' addr='' @ cand e r m)] @
                accept_events (prefix (conf r)) acs
           else [Output (prefix (conf r)) ''fatal'' (fatal_line e (retry_limit r) (scheme r))])
        \<and> (returned (Run e acs r) = None \<longleftrightarrow> bind_ok e r m)
        \<and> proto (conf (server (Run e acs r))) = scheme r
        \<and> addr (conf (server (Run e acs r))) = cand e r m
        \<and> filter (has_key ''objects'') (out (Run e acs r)) =
            [Output (prefix (conf r)) ''objects'' (Join (objs r) '', '')]
        \<and> filter (has_key ''auth-token'') (out (Run e acs r)) =
            (if bind_ok e r m then [Output (prefix (conf r)) ''auth-token'' (secret r)] else [])
        \<and> filter (has_key ''ready'') (out (Run e acs r)) =
            (if bind_ok e r m
             then [Output (prefix (conf r)) ''ready''
                     (''proto='' @ scheme r @ '' addr='' @ cand e r m)]
             else []))"
proof -
  have main: "out (Run e acs r) =
          Output (prefix (conf r)) ''objects'' (Join (objs r) '', '') #
          map (\<lambda>j. ListenCall (scheme r) (cand e r j)) [0..<Suc m] @
          (if bind_ok e r m
           then [Output (prefix (conf r)) ''auth-token'' (secret r),
                 Output (prefix (conf r)) ''ready''
                   (''proto='' @ scheme r @ '' addr='' @ cand e r m)] @
                accept_events (prefix (conf r)) acs
           else [Output (prefix (conf r)) ''fatal'' (fatal_line e (retry_limit r) (scheme r))])
        \<and> (returned (Run e acs r) = None \<longleftrightarrow> bind_ok e r m)
        \<and> proto (conf (server (Run e acs r))) = scheme r
        \<and> addr (conf (server (Run e acs r))) = cand e r m
        \<and> filter (has_key ''objects'') (out (Run e acs r)) =
            [Output (prefix (conf r)) ''objects'' (Join (objs r) '', '')]
        \<and> filter (has_key ''auth-token'') (out (Run e acs r)) =
            (if bind_ok e r m then [Output (prefix (conf r)) ''auth-token'' (secret r)] else [])
        \<and> filter (has_key ''ready'') (out (Run e acs r)) =
            (if bind_ok e r m
             then [Output (prefix (conf r)) ''ready''
                     (''proto='' @ scheme r @ '' addr='' @ cand e r m)]
             else [])"
    if s: "stops_at e r m"
  proof -
    from s have a: "m < retry_limit r" "\<forall>j<m. \<not> bind_ok e r j"
        "bind_ok e r m \<or> Suc m = retry_limit r"
      by (simp_all add: stops_at_iff)
    note o = Run_stops(3) [OF a, of acs]
    have r: "returned (Run e acs r) = None \<longleftrightarrow> bind_ok e r m"
      unfolding Run_stops(1) [OF a] by (simp add: bind_ok_def)
    have sv: "proto (conf (server (Run e acs r))) = scheme r"
        "addr (conf (server (Run e acs r))) = cand e r m"
      unfolding Run_stops(2) [OF a] by simp_all
    have k1: "filter (has_key ''objects'') (out (Run e acs r)) =
            [Output (prefix (conf r)) ''objects'' (Join (objs r) '', '')]"
      unfolding o by (simp add: filter_key_ListenCalls filter_accept_events_key del: upt_Suc)
    have k2: "filter (has_key ''auth-token'') (out (Run e acs r)) =
            (if bind_ok e r m then [Output (prefix (conf r)) ''auth-token'' (secret r)] else [])"
      unfolding o by (simp add: filter_key_ListenCalls filter_accept_events_key del: upt_Suc)
    have k3: "filter (has_key ''ready'') (out (Run e acs r)) =
            (if bind_ok e r m
             then [Output (prefix (conf r)) ''ready''
                     (''proto='' @ scheme r @ '' addr='' @ cand e r m)]
             else [])"
      unfolding o by (simp add: filter_key_ListenCalls filter_accept_events_key del: upt_Suc)
    from o r sv k1 k2 k3 show ?thesis by blast
  qed
  from stops_at_exists [of e r] main show ?thesis by blast
qed

theorem handshake_order_witness:
  "stops_at collide_env example_server 3
   \<and> out (Run collide_env [Inl ''closed''] example_server) =
       [Output ''pingo'' ''objects'' ''PingoRpc'',
        ListenCall ''unix'' ''aaaaaaaa'', ListenCall ''unix'' ''bbbbbbbb'',
        ListenCall ''unix'' ''cccccccc'', ListenCall ''unix'' ''dddddddd'',
        Output ''pingo'' ''auth-token'' example_secret,
        Output ''pingo'' ''ready'' ''proto=unix addr=dddddddd'',
        Output ''pingo'' ''fatal'' ''err-http-serve: closed'']
   \<and> stops_at taken_env example_server 3
   \<and> filter (has_key ''auth-token'') (out (Run taken_env [] example_server)) = []
   \<and> filter (has_key ''ready'') (out (Run taken_env [] example_server)) = []
   \<and> returned (Run taken_env [] example_server) \<noteq> None"
proof -
  have pu: "proto (conf example_server) \<noteq> ''tcp''" by (simp add: example_server_eq example_conf)
  have su: "scheme example_server = ''unix''" using pu by (simp add: scheme_def)
  have n: "retry_limit example_server = 4" using pu by (simp add: retry_limit_eq)
  have s1: "stops_at collide_env example_server 3"
    by (simp add: stops_at_iff n collide_bind_ok)
  have s2: "stops_at taken_env example_server 3"
    by (simp add: stops_at_iff n taken_bind_ok)
  have cu: "cand collide_env example_server j = randstr collide_env j 8" for j
    using pu by (rule cand_unix)
  from handshake_order [of collide_env example_server 3 "[Inl ''closed'']"] s1
  have "out (Run collide_env [Inl ''closed''] example_server) =
          Output (prefix (conf example_server)) ''objects'' (Join (objs example_server) '', '') #
          map (\<lambda>j. ListenCall (scheme example_server) (cand collide_env example_server j)) [0..<Suc 3] @
          (if bind_ok collide_env example_server 3
           then [Output (prefix (conf example_server)) ''auth-token'' (secret example_server),
                 Output (prefix (conf example_server)) ''ready''
                   (''proto='' @ scheme example_server @ '' addr='' @ cand collide_env example_server 3)] @
                accept_events (prefix (conf example_server)) [Inl ''closed'']
           else [Output (prefix (conf example_server)) ''fatal''
                   (fatal_line collide_env (retry_limit example_server) (scheme example_server))])"
    by blast
  then have a: "out (Run collide_env [Inl ''closed''] example_server) =
       [Output ''pingo'' ''objects'' ''PingoRpc'',
        ListenCall ''unix'' ''aaaaaaaa'', ListenCall ''unix'' ''bbbbbbbb'',
        ListenCall ''unix'' ''cccccccc'', ListenCall ''unix'' ''dddddddd'',
        Output ''pingo'' ''auth-token'' example_secret,
        Output ''pingo'' ''ready'' ''proto=unix addr=dddddddd'',
        Output ''pingo'' ''fatal'' ''err-http-serve: closed'']"
    unfolding upt_4
    by (simp add: cu su collide_bind_ok) (simp add: collide_env_def example_server_eq example_conf)
  from handshake_order [of taken_env example_server 3 "[]"] s2
  have b: "filter (has_key ''auth-token'') (out (Run taken_env [] example_server)) = []
       \<and> filter (has_key ''ready'') (out (Run taken_env [] example_server)) = []
       \<and> returned (Run taken_env [] example_server) \<noteq> None"
    by (simp add: taken_bind_ok)
  from s1 s2 a b show ?thesis by simp
qed

end
